theory Spec2Isabelle
  imports Complex_Main "HOL-Library.Multiset"
begin

section \<open>Values, dictionaries and exceptions\<close>

text \<open>
  The service of \<^verbatim>\<open>api/main.py\<close> handles JSON numbers. A Python \<^verbatim>\<open>int\<close> is
  unbounded; a Python \<^verbatim>\<open>float\<close> is idealised as the rational number it denotes, so
  that every comparison of the source is exact (NaN and the infinities are outside the
  model).
\<close>

datatype number = IntV int | FloatV rat

definition num_val :: "number \<Rightarrow> rat" where
  "num_val v = (case v of IntV i \<Rightarrow> of_int i | FloatV q \<Rightarrow> q)"

text \<open>
  A Python \<^verbatim>\<open>dict\<close> keeps insertion order: it is an association list with distinct
  keys. \<open>dict_set\<close> is \<^verbatim>\<open>d[k] = v\<close>: an existing key keeps its place and gets the
  new value, a new key goes to the end.
\<close>

type_synonym 'v dict = "(string \<times> 'v) list"

definition dict_set :: "'v dict \<Rightarrow> string \<Rightarrow> 'v \<Rightarrow> 'v dict" where
  "dict_set d k v =
     (if k \<in> set (map fst d) then map (\<lambda>(k', v'). if k' = k then (k', v) else (k', v')) d
      else d @ [(k, v)])"

text \<open>
  The body of a request is a JSON object: its members in the order they were sent.
  \<^verbatim>\<open>json.loads\<close> keeps the last member of a repeated key.
\<close>

definition json_object :: "(string \<times> number) list \<Rightarrow> (string \<rightharpoonup> number)" where
  "json_object members = map_of (rev members)"

datatype exn =
    KeyError "string list"
  | KeyErrorNone
  | ModelError string
  | OSError
  | Exception string

section \<open>The input data model \<^verbatim>\<open>CustomerData\<close>\<close>

datatype ftype = TInt | TFloat

text \<open>
  One declaration \<^verbatim>\<open>name: type = Field(default, ge=.., le=..)\<close>. \<open>fdefault\<close> is
  \<open>None\<close> for \<^verbatim>\<open>Field(...)\<close>, a required field.
\<close>

record field_decl =
  fname :: string
  ftype :: ftype
  fdefault :: "int option"
  ge :: int
  le :: "int option"

definition Field :: "string \<Rightarrow> ftype \<Rightarrow> int option \<Rightarrow> int \<Rightarrow> int option \<Rightarrow> field_decl" where
  "Field n t d lo hi = \<lparr>fname = n, ftype = t, fdefault = d, ge = lo, le = hi\<rparr>"

definition CustomerData :: "field_decl list" where
  "CustomerData =
    [Field ''tenure'' TInt None 0 (Some 100),
     Field ''MonthlyCharges'' TFloat None 0 (Some 200),
     Field ''TotalCharges'' TFloat None 0 None,
     Field ''SeniorCitizen'' TInt None 0 (Some 1),
     Field ''Partner'' TInt None 0 (Some 1),
     Field ''Dependents'' TInt None 0 (Some 1),
     Field ''PhoneService'' TInt None 0 (Some 1),
     Field ''PaperlessBilling'' TInt None 0 (Some 1),
     Field ''gender_Male'' TInt (Some 0) 0 (Some 1),
     Field ''MultipleLines_No_phone_service'' TInt (Some 0) 0 (Some 1),
     Field ''MultipleLines_Yes'' TInt (Some 0) 0 (Some 1),
     Field ''InternetService_Fiber_optic'' TInt (Some 0) 0 (Some 1),
     Field ''InternetService_No'' TInt (Some 0) 0 (Some 1),
     Field ''OnlineSecurity_No_internet_service'' TInt (Some 0) 0 (Some 1),
     Field ''OnlineSecurity_Yes'' TInt (Some 0) 0 (Some 1),
     Field ''OnlineBackup_No_internet_service'' TInt (Some 0) 0 (Some 1),
     Field ''OnlineBackup_Yes'' TInt (Some 0) 0 (Some 1),
     Field ''DeviceProtection_No_internet_service'' TInt (Some 0) 0 (Some 1),
     Field ''DeviceProtection_Yes'' TInt (Some 0) 0 (Some 1),
     Field ''TechSupport_No_internet_service'' TInt (Some 0) 0 (Some 1),
     Field ''TechSupport_Yes'' TInt (Some 0) 0 (Some 1),
     Field ''StreamingTV_No_internet_service'' TInt (Some 0) 0 (Some 1),
     Field ''StreamingTV_Yes'' TInt (Some 0) 0 (Some 1),
     Field ''StreamingMovies_No_internet_service'' TInt (Some 0) 0 (Some 1),
     Field ''StreamingMovies_Yes'' TInt (Some 0) 0 (Some 1),
     Field ''Contract_One_year'' TInt (Some 0) 0 (Some 1),
     Field ''Contract_Two_year'' TInt (Some 0) 0 (Some 1),
     Field ''PaymentMethod_Credit_card_automatic'' TInt (Some 0) 0 (Some 1),
     Field ''PaymentMethod_Electronic_check'' TInt (Some 0) 0 (Some 1),
     Field ''PaymentMethod_Mailed_check'' TInt (Some 0) 0 (Some 1)]"

text \<open>
  Parsing a body into \<^verbatim>\<open>CustomerData\<close> is done by pydantic before the handler
  runs. Its contract, as far as the declarations above use it: a missing field takes its
  default, or is an error when it has none; a present value is converted to the field's
  type and then checked against \<^verbatim>\<open>ge\<close> and \<^verbatim>\<open>le\<close>; the errors of all fields are
  collected, each with the name of its field; members of the body that are no field are
  ignored. An integer is always accepted for a \<^verbatim>\<open>float\<close> field. What happens to a
  float given for an \<^verbatim>\<open>int\<close> field depends on the version of the library (truncation,
  or an error unless the fraction is zero): it is the parameter \<open>int_of_float\<close>.
\<close>

datatype constraint = Missing | NotInteger | GreaterEqual int | LessEqual int

type_synonym verror = "string \<times> constraint"

definition coerce :: "(rat \<Rightarrow> int option) \<Rightarrow> ftype \<Rightarrow> number \<Rightarrow> number option" where
  "coerce int_of_float t v =
     (case t of
        TInt \<Rightarrow> (case v of IntV i \<Rightarrow> Some (IntV i) | FloatV q \<Rightarrow> map_option IntV (int_of_float q))
      | TFloat \<Rightarrow> Some (FloatV (num_val v)))"

definition check_range :: "field_decl \<Rightarrow> number \<Rightarrow> verror + number" where
  "check_range f v =
     (if num_val v < of_int (ge f) then Inl (fname f, GreaterEqual (ge f))
      else case le f of
             None \<Rightarrow> Inr v
           | Some hi \<Rightarrow> if of_int hi < num_val v then Inl (fname f, LessEqual hi) else Inr v)"

definition validate_field ::
  "(rat \<Rightarrow> int option) \<Rightarrow> (string \<rightharpoonup> number) \<Rightarrow> field_decl \<Rightarrow> verror + number" where
  "validate_field int_of_float body f =
     (case body (fname f) of
        None \<Rightarrow> (case fdefault f of None \<Rightarrow> Inl (fname f, Missing) | Some d \<Rightarrow> Inr (IntV d))
      | Some v \<Rightarrow>
          (case coerce int_of_float (ftype f) v of
             None \<Rightarrow> Inl (fname f, NotInteger)
           | Some w \<Rightarrow> check_range f w))"

fun lefts :: "('a + 'b) list \<Rightarrow> 'a list" where
  "lefts [] = []"
| "lefts (Inl a # xs) = a # lefts xs"
| "lefts (Inr b # xs) = lefts xs"

fun rights :: "('a + 'b) list \<Rightarrow> 'b list" where
  "rights [] = []"
| "rights (Inl a # xs) = rights xs"
| "rights (Inr b # xs) = b # rights xs"

text \<open>
  The result of a successful parse is the instance, given here as \<^verbatim>\<open>customer.dict()\<close>
  returns it: every declared field, in the order of the declarations.
\<close>

definition parse_CustomerData ::
  "(rat \<Rightarrow> int option) \<Rightarrow> (string \<times> number) list \<Rightarrow> verror list + number dict" where
  "parse_CustomerData int_of_float members =
     (let results = map (validate_field int_of_float (json_object members)) CustomerData
      in if lefts results = [] then Inr (zip (map fname CustomerData) (rights results))
         else Inl (lefts results))"

section \<open>The model and the canonical feature order\<close>

text \<open>
  The classifier is an opaque artifact loaded from a file. The service uses the feature
  names of its booster, which are absent (\<open>None\<close>) in a model fitted without names, and
  its two scoring functions on the one-row data frame, which may raise.
\<close>

record classifier =
  feature_names :: "string list option"
  predict :: "number list \<Rightarrow> exn + int"
  predict_proba :: "number list \<Rightarrow> exn + rat"

text \<open>
  \<^verbatim>\<open>input_df[model._Booster.feature_names]\<close>: the columns with the given names, in the
  given order. pandas raises \<^verbatim>\<open>KeyError\<close> with the names that are no column.
\<close>

definition select_columns :: "number dict \<Rightarrow> string list option \<Rightarrow> exn + number list" where
  "select_columns input_dict names =
     (case names of
        None \<Rightarrow> Inl KeyErrorNone
      | Some ns \<Rightarrow>
          (case filter (\<lambda>n. map_of input_dict n = None) ns of
             [] \<Rightarrow> Inr (map (\<lambda>n. the (map_of input_dict n)) ns)
           | missing \<Rightarrow> Inl (KeyError missing)))"

section \<open>The state of the service\<close>

text \<open>
  The process holds the global \<^verbatim>\<open>model\<close> and appends to the file \<^verbatim>\<open>LOG_FILE\<close>. The
  file is the list of its lines, each a list of cells; \<open>log_writable\<close> says whether
  opening it for appending succeeds (the directory \<^verbatim>\<open>../logs\<close> exists and may be
  written). \<open>model_calls\<close> counts the calls of the model's scoring functions: it is
  not in the source and records the effect "the model was invoked".
\<close>

datatype cell = NumC number | StrC string | TimeC rat | EllipsisC

record server =
  model :: "classifier option"
  log_file :: "cell list list"
  log_writable :: bool
  model_calls :: nat

text \<open>
  The four readings of \<^verbatim>\<open>datetime.now()\<close> during one call of \<^verbatim>\<open>/predict\<close>, in
  seconds: at the start, for the duration given to the logger, for the timestamp of the
  row, for the timestamp of the response.
\<close>

record clock =
  t_start :: rat
  t_logged :: rat
  t_row :: rat
  t_response :: rat

section \<open>The audit log\<close>

text \<open>
  \<^verbatim>\<open>log_prediction(data, response, status, exec_time)\<close>. The row is built first, and
  reading a key that \<^verbatim>\<open>response\<close> does not have raises \<^verbatim>\<open>KeyError\<close>. Then the file is
  opened for appending; the header (the keys of the row) is written when the file is empty
  (\<^verbatim>\<open>f.tell() == 0\<close>), and the row after it.
\<close>

definition log_prediction ::
  "rat \<Rightarrow> number dict \<Rightarrow> cell dict \<Rightarrow> string \<Rightarrow> rat \<Rightarrow> server \<Rightarrow> exn + server" where
  "log_prediction now data response status exec_time s =
     (case map_of response ''churn_prediction'' of
        None \<Rightarrow> Inl (KeyError [''churn_prediction''])
      | Some prediction \<Rightarrow>
     (case map_of response ''churn_probability'' of
        None \<Rightarrow> Inl (KeyError [''churn_probability''])
      | Some probability \<Rightarrow>
         (let row0 = map (\<lambda>(k, v). (k, NumC v)) data;
              row1 = dict_set row0 ''prediction'' prediction;
              row2 = dict_set row1 ''probability'' probability;
              row3 = dict_set row2 ''status'' (StrC status);
              row4 = dict_set row3 ''exec_time'' (NumC (FloatV exec_time));
              row = dict_set row4 ''timestamp'' (TimeC now)
          in if log_writable s
             then Inr (s\<lparr>log_file :=
                         log_file s
                         @ (if log_file s = [] then [map (\<lambda>(k, v). StrC k) row] else [])
                         @ [map snd row]\<rparr>)
             else Inl OSError)))"

section \<open>Shaping the response\<close>

definition confidence_level :: "rat \<Rightarrow> string" where
  "confidence_level probability =
     (if probability > 7 / 10 \<or> probability < 3 / 10 then ''High''
      else if probability > 6 / 10 \<or> probability < 4 / 10 then ''Medium''
      else ''Low'')"

definition recommendation_for :: "rat \<Rightarrow> string" where
  "recommendation_for probability =
     (if probability > 7 / 10
      then ''High churn risk! Contact customer immediately with retention offer.''
      else if probability > 5 / 10
      then ''Moderate risk. Monitor customer satisfaction and engagement.''
      else ''Low risk. Customer likely to stay. Focus on upselling opportunities.'')"

definition churn_label :: "int \<Rightarrow> string" where
  "churn_label prediction = (if prediction = 1 then ''Will Churn'' else ''Will Not Churn'')"

text \<open>
  \<^verbatim>\<open>round(x, 4)\<close> of Python rounds the exact value of \<^verbatim>\<open>x\<close> to four decimals, a tie
  going to the even digit.
\<close>

definition round_half_even :: "rat \<Rightarrow> int" where
  "round_half_even x =
     (let f = \<lfloor>x\<rfloor>; d = x - of_int f
      in if d < 1 / 2 then f else if 1 / 2 < d then f + 1 else if even f then f else f + 1)"

definition round4 :: "rat \<Rightarrow> rat" where
  "round4 x = of_int (round_half_even (x * 10000)) / 10000"

record prediction_response =
  churn_prediction :: string
  churn_probability :: rat
  confidence :: string
  recommendation :: string
  timestamp :: rat

datatype http_detail = ModelNotLoaded | PredictionError exn

datatype response =
    Ok200 prediction_response
  | Err422 "verror list"
  | Err500 http_detail

section \<open>The handler of \<^verbatim>\<open>POST /predict\<close>\<close>

text \<open>
  \<^verbatim>\<open>predict_churn(customer)\<close>. Every exception raised inside the \<^verbatim>\<open>try\<close> block is
  answered by \<^verbatim>\<open>HTTPException(500, "Prediction error: ...")\<close>; the \<^verbatim>\<open>raise\<close> leaves
  the handler, so the call of \<^verbatim>\<open>log_prediction\<close> that the source has after it is never
  reached and has no counterpart here. The logger is called with the dictionary
  \<^verbatim>\<open>{"churn_prediction": ..., "churn_probability": ...}\<close>, whose two values are the
  object \<^verbatim>\<open>Ellipsis\<close>.
\<close>

definition predict_churn :: "clock \<Rightarrow> number dict \<Rightarrow> server \<Rightarrow> response \<times> server" where
  "predict_churn clk customer s =
     (case model s of
        None \<Rightarrow> (Err500 ModelNotLoaded, s)
      | Some m \<Rightarrow>
         (let input_dict = customer
          in case select_columns input_dict (feature_names m) of
               Inl e \<Rightarrow> (Err500 (PredictionError e), s)
             | Inr input_df \<Rightarrow>
                (let s1 = s\<lparr>model_calls := model_calls s + 1\<rparr>
                 in case predict m input_df of
                      Inl e \<Rightarrow> (Err500 (PredictionError e), s1)
                    | Inr prediction \<Rightarrow>
                       (let s2 = s1\<lparr>model_calls := model_calls s1 + 1\<rparr>
                        in case predict_proba m input_df of
                             Inl e \<Rightarrow> (Err500 (PredictionError e), s2)
                           | Inr probability \<Rightarrow>
                              (let confidence = confidence_level probability;
                                   recommendation = recommendation_for probability
                               in case log_prediction (t_row clk) input_dict
                                         [(''churn_prediction'', EllipsisC),
                                          (''churn_probability'', EllipsisC)]
                                         ''success'' (t_logged clk - t_start clk) s2 of
                                    Inl e \<Rightarrow> (Err500 (PredictionError e), s2)
                                  | Inr s3 \<Rightarrow>
                                     (Ok200 \<lparr>churn_prediction = churn_label prediction,
                                             churn_probability = round4 probability,
                                             confidence = confidence,
                                             recommendation = recommendation,
                                             timestamp = t_response clk\<rparr>, s3))))))"

text \<open>
  The endpoint: the body is parsed into \<^verbatim>\<open>CustomerData\<close> first, and a body that does
  not parse is answered with status 422 and the list of errors, without the handler.
\<close>

definition post_predict ::
  "(rat \<Rightarrow> int option) \<Rightarrow> clock \<Rightarrow> (string \<times> number) list \<Rightarrow> server \<Rightarrow> response \<times> server" where
  "post_predict int_of_float clk body s =
     (case parse_CustomerData int_of_float body of
        Inl errors \<Rightarrow> (Err422 errors, s)
      | Inr customer \<Rightarrow> predict_churn clk customer s)"

section \<open>The handler of \<^verbatim>\<open>POST /predict/batch\<close>\<close>

datatype slot = Prediction string rat | SlotError exn

text \<open>
  The body of the loop: the slot appended for one customer, and the number of calls of
  the model made for it.
\<close>

definition batch_item :: "classifier \<Rightarrow> number dict \<Rightarrow> slot \<times> nat" where
  "batch_item m customer =
     (let input_dict = customer
      in case select_columns input_dict (feature_names m) of
           Inl e \<Rightarrow> (SlotError e, 0)
         | Inr input_df \<Rightarrow>
            (case predict m input_df of
               Inl e \<Rightarrow> (SlotError e, 1)
             | Inr prediction \<Rightarrow>
                (case predict_proba m input_df of
                   Inl e \<Rightarrow> (SlotError e, 2)
                 | Inr probability \<Rightarrow>
                    (Prediction (churn_label prediction) (round4 probability), 2))))"

fun batch_loop :: "classifier \<Rightarrow> number dict list \<Rightarrow> slot list \<times> nat \<Rightarrow> slot list \<times> nat" where
  "batch_loop m [] (results, calls) = (results, calls)"
| "batch_loop m (customer # customers) (results, calls) =
     (case batch_item m customer of
        (r, n) \<Rightarrow> batch_loop m customers (results @ [r], calls + n))"

datatype batch_response =
    BatchOk "slot list" nat
  | Batch422 "(nat \<times> verror) list"
  | Batch500 http_detail

definition predict_batch :: "number dict list \<Rightarrow> server \<Rightarrow> batch_response \<times> server" where
  "predict_batch customers s =
     (case model s of
        None \<Rightarrow> (Batch500 ModelNotLoaded, s)
      | Some m \<Rightarrow>
         (case batch_loop m customers ([], model_calls s) of
            (results, calls) \<Rightarrow>
              (BatchOk results (length results), s\<lparr>model_calls := calls\<rparr>)))"



section \<open>Loading the model at startup\<close>

text \<open>
  What \<^verbatim>\<open>load_model_at_startup\<close> sees of the file system: which paths exist, and what
  \<^verbatim>\<open>joblib.load\<close> and \<^verbatim>\<open>pickle.load\<close> (with the \<^verbatim>\<open>open\<close> before it) give for a path.
\<close>

record filesystem =
  path_exists :: "string \<Rightarrow> bool"
  joblib_load :: "string \<Rightarrow> exn + classifier"
  pickle_load :: "string \<Rightarrow> exn + classifier"

definition endswith :: "string \<Rightarrow> string \<Rightarrow> bool" where
  "endswith s suffix =
     (length suffix \<le> length s \<and> drop (length s - length suffix) s = suffix)"

definition model_paths :: "string list" where
  "model_paths =
     [''../models/churn_model_fixed.joblib'',
      ''../models/sagemaker_production/model.joblib'',
      ''/Users/apple/Documents/Practice ML/customer-churn-mlops/models/sagemaker_production/model.joblib'']"

text \<open>
  The loop over the candidates: \<open>Some\<close> of the model when the function returns from
  inside the loop, \<open>None\<close> when the loop ends, after which the source raises.
\<close>

fun load_loop :: "filesystem \<Rightarrow> string list \<Rightarrow> classifier option" where
  "load_loop fs [] = None"
| "load_loop fs (path # paths) =
     (if path_exists fs path then
        (if endswith path ''.joblib'' then
           (case joblib_load fs path of Inr m \<Rightarrow> Some m | Inl e \<Rightarrow> load_loop fs paths)
         else if endswith path ''.pkl'' then
           (case pickle_load fs path of Inr m \<Rightarrow> Some m | Inl e \<Rightarrow> load_loop fs paths)
         else load_loop fs paths)
      else load_loop fs paths)"

definition load_model_at_startup :: "filesystem \<Rightarrow> server \<Rightarrow> exn + server" where
  "load_model_at_startup fs s =
     (case load_loop fs model_paths of
        Some m \<Rightarrow> Inr (s\<lparr>model := Some m\<rparr>)
      | None \<Rightarrow> Inl (Exception ''Model not found!''))"

section \<open>Concrete inputs\<close>

text \<open>
  The example request of the source (\<^verbatim>\<open>Config.schema_extra\<close>), the instance it parses
  to, and small models, clocks and states on which the definitions are evaluated.
\<close>

definition strict_int :: "rat \<Rightarrow> int option" where
  "strict_int q = (if of_int \<lfloor>q\<rfloor> = q then Some \<lfloor>q\<rfloor> else None)"

definition example_body :: "(string \<times> number) list" where
  "example_body =
     [(''tenure'', IntV 12), (''MonthlyCharges'', FloatV 70), (''TotalCharges'', FloatV 840),
      (''SeniorCitizen'', IntV 0), (''Partner'', IntV 1), (''Dependents'', IntV 0),
      (''PhoneService'', IntV 1), (''PaperlessBilling'', IntV 1), (''gender_Male'', IntV 1),
      (''Contract_Two_year'', IntV 1), (''PaymentMethod_Electronic_check'', IntV 0)]"

definition example_customer :: "number dict" where
  "example_customer =
     zip (map fname CustomerData)
       [IntV 12, FloatV 70, FloatV 840, IntV 0, IntV 1, IntV 0, IntV 1, IntV 1, IntV 1,
        IntV 0, IntV 0, IntV 0, IntV 0, IntV 0, IntV 0, IntV 0, IntV 0, IntV 0, IntV 0,
        IntV 0, IntV 0, IntV 0, IntV 0, IntV 0, IntV 0, IntV 0, IntV 1, IntV 0, IntV 0,
        IntV 0]"

definition example_features :: "string list" where
  "example_features =
     [''SeniorCitizen'', ''tenure'', ''MonthlyCharges'', ''gender_Male'', ''Contract_Two_year'']"

definition example_model ::
  "string list option \<Rightarrow> (number list \<Rightarrow> exn + int) \<Rightarrow> (number list \<Rightarrow> exn + rat) \<Rightarrow> classifier" where
  "example_model names py pp = \<lparr>feature_names = names, predict = py, predict_proba = pp\<rparr>"

definition churner :: classifier where
  "churner = example_model (Some example_features) (\<lambda>xs. Inr 1) (\<lambda>xs. Inr (4 / 5))"

definition headerless :: classifier where
  "headerless = example_model (Some [''1'', ''2'', ''3'']) (\<lambda>xs. Inr 1) (\<lambda>xs. Inr (4 / 5))"

definition picky :: classifier where
  "picky =
     example_model (Some example_features)
       (\<lambda>xs. if xs ! 1 = IntV 12 then Inl (ModelError ''unseen tenure'') else Inr 0)
       (\<lambda>xs. Inr (1 / 5))"

definition second_customer :: "number dict" where
  "second_customer = (''tenure'', IntV 48) # tl example_customer"

definition example_clock :: clock where
  "example_clock = \<lparr>t_start = 0, t_logged = 1 / 100, t_row = 1 / 100, t_response = 1 / 50\<rparr>"

definition example_server :: "classifier option \<Rightarrow> bool \<Rightarrow> server" where
  "example_server m w = \<lparr>model = m, log_file = [], log_writable = w, model_calls = 0\<rparr>"

definition example_fs :: filesystem where
  "example_fs =
     \<lparr>path_exists = (\<lambda>p. p = model_paths ! 0 \<or> p = model_paths ! 1),
      joblib_load = (\<lambda>p. if p = model_paths ! 1 then Inr churner
                          else Inl (Exception ''corrupt file'')),
      pickle_load = (\<lambda>p. Inl (Exception ''not a pickle''))\<rparr>"



definition contrary :: classifier where
  "contrary = example_model (Some example_features) (\<lambda>xs. Inr 1) (\<lambda>xs. Inr (1 / 5))"

section \<open>Auxiliary facts\<close>


lemma round_half_even_near: "\<bar>of_int (round_half_even x) - x\<bar> \<le> 1 / 2"
proof -
  define f where "f = \<lfloor>x\<rfloor>"
  have b: "of_int f \<le> x" "x < of_int f + 1" unfolding f_def by linarith+
  show ?thesis
    unfolding round_half_even_def Let_def f_def[symmetric] using b by (auto simp: abs_if)
qed

lemma lefts_Nil_length: "lefts xs = [] \<Longrightarrow> length (rights xs) = length xs"
  by (induction xs rule: lefts.induct) auto


lemma zip_rights_lookup:
  assumes "lefts (map g fs) = []" "distinct (map k fs)" "f \<in> set fs"
  shows "\<exists>v. g f = Inr v \<and> map_of (zip (map k fs) (rights (map g fs))) (k f) = Some v"
  using assms
proof (induction fs)
  case Nil
  then show ?case by simp
next
  case (Cons a fs)
  then show ?case by (cases "g a") (auto simp: image_iff)
qed

lemma zip_rights_keys:
  "lefts (map g fs) = [] \<Longrightarrow> map fst (zip (map k fs) (rights (map g fs))) = map k fs"
  by (simp add: lefts_Nil_length)

lemma distinct_names: "distinct (map fname CustomerData)"
  unfolding CustomerData_def Field_def by simp

lemma parse_success:
  assumes "parse_CustomerData iof body = Inr c"
  shows "map fst c = map fname CustomerData"
    and "f \<in> set CustomerData \<Longrightarrow>
           \<exists>v. validate_field iof (json_object body) f = Inr v \<and> map_of c (fname f) = Some v"
proof -
  let ?g = "validate_field iof (json_object body)"
  from assms have l: "lefts (map ?g CustomerData) = []"
    and c: "c = zip (map fname CustomerData) (rights (map ?g CustomerData))"
    unfolding parse_CustomerData_def Let_def by (auto split: if_splits)
  show "map fst c = map fname CustomerData" unfolding c using l by (rule zip_rights_keys)
  show "\<exists>v. ?g f = Inr v \<and> map_of c (fname f) = Some v" if "f \<in> set CustomerData"
    unfolding c using l distinct_names that by (rule zip_rights_lookup)
qed

lemma parse_cong:
  assumes "\<forall>f\<in>set CustomerData. json_object b' (fname f) = json_object b (fname f)"
  shows "parse_CustomerData iof b' = parse_CustomerData iof b"
proof -
  have h: "map (validate_field iof (json_object b')) CustomerData
        = map (validate_field iof (json_object b)) CustomerData"
    using assms by (intro map_cong refl) (simp add: validate_field_def)
  show ?thesis unfolding parse_CustomerData_def h by (rule refl)
qed

lemma json_object_perm:
  assumes "mset b' = mset b" "distinct (map fst b)"
  shows "json_object b' = json_object b"
proof -
  have "mset (map fst b') = mset (map fst b)" using assms(1) by (metis mset_map)
  then have d': "distinct (map fst b')" using assms(2) by (metis mset_eq_imp_distinct_iff)
  have s: "set b' = set b" using assms(1) by (rule mset_eq_setD)
  have "map_of (rev b') = map_of (rev b)"
    using d' assms(2) s by (subst map_of_inject_set) (simp_all add: rev_map[symmetric])
  then show ?thesis unfolding json_object_def .
qed

lemma select_columns_ok:
  assumes "\<forall>n\<in>set ns. map_of c n \<noteq> None"
  shows "select_columns c (Some ns) = Inr (map (\<lambda>n. the (map_of c n)) ns)"
proof -
  have "filter (\<lambda>n. map_of c n = None) ns = []" using assms by (simp add: filter_empty_conv)
  then show ?thesis unfolding select_columns_def by simp
qed

lemma select_columns_missing:
  assumes "n \<in> set ns" "map_of c n = None"
  shows "\<exists>e. select_columns c (Some ns) = Inl e"
proof -
  have "filter (\<lambda>n. map_of c n = None) ns \<noteq> []" using assms by (auto simp: filter_empty_conv)
  then show ?thesis unfolding select_columns_def by (auto split: list.splits)
qed

lemma defaults_zero: "f \<in> set CustomerData \<Longrightarrow> fdefault f = Some d \<Longrightarrow> d = 0"
  unfolding CustomerData_def Field_def by auto

lemma validate_field_value:
  assumes "validate_field iof body f = Inr x"
  shows "case body (fname f) of None \<Rightarrow> (\<exists>d. fdefault f = Some d \<and> x = IntV d)
         | Some v \<Rightarrow> coerce iof (ftype f) v = Some x"
  using assms unfolding validate_field_def check_range_def
  by (auto split: option.splits if_splits)

lemma coerce_typed:
  assumes "ftype f = TInt \<longrightarrow> (\<exists>i. v = IntV i)"
  shows "\<exists>w. coerce iof (ftype f) v = Some w \<and> num_val w = num_val v"
  using assms unfolding coerce_def num_val_def by (cases "ftype f") auto

lemma validate_field_out_of_range:
  assumes "body (fname f) = Some v" "ftype f = TInt \<longrightarrow> (\<exists>i. v = IntV i)"
    and "num_val v < of_int (ge f) \<or> (\<exists>hi. le f = Some hi \<and> of_int hi < num_val v)"
  shows "validate_field iof body f = Inl (fname f, GreaterEqual (ge f)) \<or>
         (\<exists>hi. le f = Some hi \<and> validate_field iof body f = Inl (fname f, LessEqual hi))"
proof -
  obtain w where w: "coerce iof (ftype f) v = Some w" "num_val w = num_val v"
    using coerce_typed[OF assms(2)] by blast
  show ?thesis using assms(1,3) w unfolding validate_field_def check_range_def by auto
qed



lemma batch_loop_eq:
  "batch_loop m cs (acc, n) =
     (acc @ map (\<lambda>c. fst (batch_item m c)) cs, n + sum_list (map (\<lambda>c. snd (batch_item m c)) cs))"
  by (induction cs arbitrary: acc n) (auto split: prod.splits)

lemma load_loop_None:
  assumes "\<forall>p\<in>set ps. endswith p ''.joblib''"
  shows "load_loop fs ps = None \<longleftrightarrow>
         (\<forall>p\<in>set ps. \<not> (path_exists fs p \<and> (\<exists>m. joblib_load fs p = Inr m)))"
  using assms by (induction ps) (auto split: sum.splits)

lemma load_loop_skip:
  assumes "\<forall>p\<in>set pre. endswith p ''.joblib''"
    and "\<forall>q\<in>set pre. \<not> (path_exists fs q \<and> (\<exists>m. joblib_load fs q = Inr m))"
  shows "load_loop fs (pre @ ps) = load_loop fs ps"
  using assms by (induction pre) (auto split: sum.splits)

lemma load_loop_Some:
  assumes "\<forall>p\<in>set ps. endswith p ''.joblib''" "load_loop fs ps = Some m"
  shows "\<exists>pre p post. ps = pre @ p # post \<and>
           (\<forall>q\<in>set pre. \<not> (path_exists fs q \<and> (\<exists>m'. joblib_load fs q = Inr m'))) \<and>
           path_exists fs p \<and> joblib_load fs p = Inr m"
  using assms
proof (induction ps)
  case Nil
  then show ?case by simp
next
  case (Cons a ps)
  show ?case
  proof (cases "path_exists fs a \<and> (\<exists>m'. joblib_load fs a = Inr m')")
    case True
    with Cons.prems have "joblib_load fs a = Inr m" by auto
    with True show ?thesis by (intro exI[of _ "[]"] exI[of _ a] exI[of _ ps]) simp
  next
    case False
    with Cons.prems have "load_loop fs ps = Some m" by (auto split: sum.splits if_splits)
    with Cons obtain pre p post where d: "ps = pre @ p # post"
      "\<forall>q\<in>set pre. \<not> (path_exists fs q \<and> (\<exists>m'. joblib_load fs q = Inr m'))"
      "path_exists fs p" "joblib_load fs p = Inr m" by auto
    with False show ?thesis by (intro exI[of _ "a # pre"] exI[of _ p] exI[of _ post]) auto
  qed
qed

lemma model_paths_joblib: "\<forall>p\<in>set model_paths. endswith p ''.joblib''"
  unfolding model_paths_def endswith_def by simp


lemma predict_churn_success:
  assumes "predict_churn clk c s = (Ok200 r, s')"
  shows "\<exists>m xs y p. model s = Some m \<and> select_columns c (feature_names m) = Inr xs \<and>
           predict m xs = Inr y \<and> predict_proba m xs = Inr p \<and>
           r = \<lparr>churn_prediction = churn_label y, churn_probability = round4 p,
                 confidence = confidence_level p, recommendation = recommendation_for p,
                 timestamp = t_response clk\<rparr> \<and>
           log_prediction (t_row clk) c
             [(''churn_prediction'', EllipsisC), (''churn_probability'', EllipsisC)]
             ''success'' (t_logged clk - t_start clk)
             (s\<lparr>model_calls := model_calls s + 2\<rparr>) = Inr s'"
  using assms unfolding predict_churn_def Let_def
  by (auto split: option.splits sum.splits)

lemma predict_churn_error_log:
  assumes "predict_churn clk c s = (resp, s')" "\<forall>r. resp \<noteq> Ok200 r"
  shows "log_file s' = log_file s"
  using assms unfolding predict_churn_def Let_def
  by (auto split: option.splits sum.splits)

lemma predict_churn_model:
  "model (snd (predict_churn clk c s)) = model s"
  unfolding predict_churn_def Let_def log_prediction_def
  by (auto split: option.splits sum.splits)

lemma round4_near: "\<bar>round4 x - x\<bar> \<le> 1 / 20000"
proof -
  have "\<bar>of_int (round_half_even (x * 10000)) - x * 10000\<bar> \<le> 1 / 2"
    by (rule round_half_even_near)
  then show ?thesis unfolding round4_def by (simp add: field_simps abs_if split: if_splits)
qed

lemma ex_model_sel:
  "select_columns example_customer (Some example_features)
     = Inr [IntV 0, IntV 12, FloatV 70, IntV 1, IntV 1]"
  unfolding select_columns_def example_customer_def example_features_def CustomerData_def Field_def
  by simp

lemma parse_example: "parse_CustomerData strict_int example_body = Inr example_customer"
  unfolding parse_CustomerData_def example_body_def example_customer_def CustomerData_def Field_def
    json_object_def validate_field_def coerce_def check_range_def num_val_def Let_def
  by simp

section \<open>The confidence tier\<close>

text \<open>
  C2. The confidence tier is a total function of the probability alone, with the branch
  for \<open>High\<close> tested first: it is \<open>High\<close> exactly when \<open>p > 0.7\<close> or \<open>p < 0.3\<close>;
  otherwise \<open>Medium\<close> exactly when \<open>p > 0.6\<close> or \<open>p < 0.4\<close>; otherwise \<open>Low\<close>. It
  takes no state and returns one of the three tiers for every \<open>p\<close>.
\<close>

theorem confidence_tiers:
  "(confidence_level p = ''High'' \<longleftrightarrow> (7 / 10 < p \<or> p < 3 / 10)) \<and>
   (confidence_level p = ''Medium'' \<longleftrightarrow>
      (\<not> (7 / 10 < p \<or> p < 3 / 10) \<and> (6 / 10 < p \<or> p < 4 / 10))) \<and>
   (confidence_level p = ''Low'' \<longleftrightarrow>
      (\<not> (7 / 10 < p \<or> p < 3 / 10) \<and> \<not> (6 / 10 < p \<or> p < 4 / 10))) \<and>
   confidence_level p \<in> {''High'', ''Medium'', ''Low''}"
  unfolding confidence_level_def by simp

theorem confidence_tiers_witness:
  "confidence_level (1 / 5) = ''High'' \<and> confidence_level (13 / 20) = ''Medium'' \<and>
   confidence_level (1 / 2) = ''Low''"
  using confidence_tiers [of "1 / 5"] confidence_tiers [of "13 / 20"]
    confidence_tiers [of "1 / 2"]
  by simp

text \<open>
  C10. The tiers partition the probabilities: \<open>Medium\<close> is exactly \<open>(0.6, 0.7]\<close> together
  with \<open>[0.3, 0.4)\<close>, \<open>Low\<close> is exactly \<open>[0.4, 0.6]\<close>; no probability of the two
  \<open>Medium\<close> ranges is classified \<open>High\<close>, and every probability that satisfies both the
  condition of \<open>High\<close> and the condition of \<open>Medium\<close> is classified \<open>High\<close>.
\<close>

theorem confidence_partition:
  "(confidence_level p = ''Medium'' \<longleftrightarrow>
      (6 / 10 < p \<and> p \<le> 7 / 10) \<or> (3 / 10 \<le> p \<and> p < 4 / 10)) \<and>
   (confidence_level p = ''Low'' \<longleftrightarrow> 4 / 10 \<le> p \<and> p \<le> 6 / 10) \<and>
   ((6 / 10 < p \<and> p \<le> 7 / 10) \<or> (3 / 10 \<le> p \<and> p < 4 / 10)
      \<longrightarrow> confidence_level p \<noteq> ''High'') \<and>
   ((7 / 10 < p \<or> p < 3 / 10) \<and> (6 / 10 < p \<or> p < 4 / 10)
      \<longrightarrow> confidence_level p = ''High'')"
  unfolding confidence_level_def by (auto simp: not_less)

theorem confidence_partition_witness:
  "confidence_level (7 / 10) = ''Medium'' \<and> confidence_level (3 / 10) = ''Medium'' \<and>
   confidence_level (2 / 5) = ''Low'' \<and> confidence_level (3 / 5) = ''Low'' \<and>
   confidence_level (7 / 10) \<noteq> ''High'' \<and> confidence_level (4 / 5) = ''High''"
  using confidence_partition [of "7 / 10"] confidence_partition [of "3 / 10"]
    confidence_partition [of "2 / 5"] confidence_partition [of "3 / 5"]
    confidence_partition [of "4 / 5"]
  by simp



lemma predict_churn_run:
  assumes "model s = Some m" "select_columns c (feature_names m) = Inr xs"
    "predict m xs = Inr y" "predict_proba m xs = Inr p"
  shows "predict_churn clk c s =
     (case log_prediction (t_row clk) c
             [(''churn_prediction'', EllipsisC), (''churn_probability'', EllipsisC)]
             ''success'' (t_logged clk - t_start clk) (s\<lparr>model_calls := model_calls s + 2\<rparr>) of
        Inl e \<Rightarrow> (Err500 (PredictionError e), s\<lparr>model_calls := model_calls s + 2\<rparr>)
      | Inr s3 \<Rightarrow>
          (Ok200 \<lparr>churn_prediction = churn_label y, churn_probability = round4 p,
                  confidence = confidence_level p, recommendation = recommendation_for p,
                  timestamp = t_response clk\<rparr>, s3))"
  using assms unfolding predict_churn_def Let_def by (simp split: sum.splits)

lemma log_prediction_readonly:
  "\<not> log_writable s \<Longrightarrow>
   log_prediction now data [(''churn_prediction'', a), (''churn_probability'', b)] st dt s = Inl OSError"
  unfolding log_prediction_def Let_def by simp

lemma log_prediction_writable:
  "log_writable s \<Longrightarrow>
   \<exists>s'. log_prediction now data [(''churn_prediction'', a), (''churn_probability'', b)] st dt s = Inr s'"
  unfolding log_prediction_def Let_def by simp

lemma round4_grid: "\<exists>k::int. round4 x = of_int k / 10000"
  unfolding round4_def by blast

lemma predict_batch_model: "model (snd (predict_batch cs s)) = model s"
  unfolding predict_batch_def by (auto split: option.splits prod.splits)

lemma churner_run:
  "select_columns example_customer (feature_names churner) = Inr [IntV 0, IntV 12, FloatV 70, IntV 1, IntV 1]"
  "predict churner xs = Inr 1" "predict_proba churner xs = Inr (4 / 5)"
  using ex_model_sel unfolding churner_def example_model_def by simp_all

lemma round4_example: "round4 (4 / 5) = 4 / 5" "round4 (1 / 5) = 1 / 5"
  unfolding round4_def round_half_even_def Let_def by simp_all

lemma log_prediction_calls:
  "log_prediction now data response st dt s = Inr s' \<Longrightarrow> model_calls s' = model_calls s"
  unfolding log_prediction_def Let_def by (auto split: option.splits if_splits)

lemma predict_churn_ok:
  assumes "model s = Some m" "select_columns c (feature_names m) = Inr xs"
    "predict m xs = Inr y" "predict_proba m xs = Inr p" "log_writable s"
  shows "fst (predict_churn clk c s) =
           Ok200 \<lparr>churn_prediction = churn_label y, churn_probability = round4 p,
                  confidence = confidence_level p, recommendation = recommendation_for p,
                  timestamp = t_response clk\<rparr>"
    and "model_calls (snd (predict_churn clk c s)) = model_calls s + 2"
proof -
  let ?s2 = "s\<lparr>model_calls := model_calls s + 2\<rparr>"
  have "log_writable ?s2" using assms(5) by simp
  from log_prediction_writable[OF this]
  obtain s' where l: "log_prediction (t_row clk) c
             [(''churn_prediction'', EllipsisC), (''churn_probability'', EllipsisC)]
             ''success'' (t_logged clk - t_start clk) ?s2 = Inr s'"
    by blast
  have r: "predict_churn clk c s =
     (Ok200 \<lparr>churn_prediction = churn_label y, churn_probability = round4 p,
             confidence = confidence_level p, recommendation = recommendation_for p,
             timestamp = t_response clk\<rparr>, s')"
    unfolding predict_churn_run[OF assms(1-4)] l by simp
  show "fst (predict_churn clk c s) =
           Ok200 \<lparr>churn_prediction = churn_label y, churn_probability = round4 p,
                  confidence = confidence_level p, recommendation = recommendation_for p,
                  timestamp = t_response clk\<rparr>"
    unfolding r by simp
  show "model_calls (snd (predict_churn clk c s)) = model_calls s + 2"
    unfolding r using log_prediction_calls[OF l] by simp
qed

lemma predict_churn_select_fails:
  assumes "model s = Some m" "select_columns c (feature_names m) = Inl e"
  shows "predict_churn clk c s = (Err500 (PredictionError e), s)"
  using assms unfolding predict_churn_def Let_def by simp

lemma batch_item_select_fails:
  "select_columns c (feature_names m) = Inl e \<Longrightarrow> batch_item m c = (SlotError e, 0)"
  unfolding batch_item_def Let_def by simp

lemma predict_batch_loaded:
  assumes "model s = Some m"
  shows "predict_batch cs s =
     (BatchOk (map (\<lambda>c. fst (batch_item m c)) cs) (length cs),
      s\<lparr>model_calls := model_calls s + sum_list (map (\<lambda>c. snd (batch_item m c)) cs)\<rparr>)"
  unfolding predict_batch_def using assms by (simp add: batch_loop_eq)

lemma parsed_lookup_None:
  assumes "parse_CustomerData iof body = Inr c"
  shows "map_of c n = None \<longleftrightarrow> n \<notin> fname ` set CustomerData"
proof -
  have "set (map fst c) = set (map fname CustomerData)"
    using parse_success(1)[OF assms] by simp
  then have "fst ` set c = fname ` set CustomerData" by simp
  then show ?thesis by (simp add: map_of_eq_None_iff)
qed

lemma select_columns_KeyError:
  assumes "filter (\<lambda>n. map_of c n = None) ns \<noteq> []"
  shows "select_columns c (Some ns) = Inl (KeyError (filter (\<lambda>n. map_of c n = None) ns))"
  using assms unfolding select_columns_def by (simp split: list.splits)


lemma contrary_run:
  "select_columns example_customer (feature_names contrary) = Inr [IntV 0, IntV 12, FloatV 70, IntV 1, IntV 1]"
  "predict contrary xs = Inr 1" "predict_proba contrary xs = Inr (1 / 5)"
  using ex_model_sel unfolding contrary_def example_model_def by simp_all

section \<open>The response of \<^verbatim>\<open>/predict\<close>\<close>

text \<open>
  C5. Every successful call of \<^verbatim>\<open>/predict\<close> comes from a raw prediction \<open>y\<close> and a
  probability \<open>p\<close> that the loaded model gave for the canonical row, and in its response:
  the label is \<open>Will Churn\<close> exactly when \<open>y = 1\<close> (and \<open>Will Not Churn\<close> otherwise,
  whatever \<open>p\<close> is); the probability is \<open>p\<close> rounded to four decimals, a multiple of
  \<open>0.0001\<close> at most \<open>0.00005\<close> away from \<open>p\<close>; the recommendation is the urgent
  retention message for \<open>p > 0.7\<close>, the monitoring message for \<open>0.5 < p \<le> 0.7\<close>, and
  the upselling message for \<open>p \<le> 0.5\<close>. And the handler does answer so: whenever the
  model is loaded, gives \<open>y\<close> and \<open>p\<close> for the canonical row and the log file can be
  written, the answer is the response with these fields.
\<close>

theorem response_fields:
  "(predict_churn clk c s = (Ok200 r, s') \<longrightarrow>
      (\<exists>m xs y p. model s = Some m \<and> select_columns c (feature_names m) = Inr xs \<and>
           predict m xs = Inr y \<and> predict_proba m xs = Inr p \<and>
           (churn_prediction r = ''Will Churn'' \<longleftrightarrow> y = 1) \<and>
           (churn_prediction r = ''Will Not Churn'' \<longleftrightarrow> y \<noteq> 1) \<and>
           churn_probability r = round4 p \<and>
           (\<exists>k::int. churn_probability r = of_int k / 10000) \<and>
           \<bar>churn_probability r - p\<bar> \<le> 1 / 20000 \<and>
           (7 / 10 < p \<longrightarrow> recommendation r =
              ''High churn risk! Contact customer immediately with retention offer.'') \<and>
           (5 / 10 < p \<and> p \<le> 7 / 10 \<longrightarrow> recommendation r =
              ''Moderate risk. Monitor customer satisfaction and engagement.'') \<and>
           (p \<le> 5 / 10 \<longrightarrow> recommendation r =
              ''Low risk. Customer likely to stay. Focus on upselling opportunities.''))) \<and>
   (\<forall>m xs y p. model s = Some m \<and> select_columns c (feature_names m) = Inr xs \<and>
        predict m xs = Inr y \<and> predict_proba m xs = Inr p \<and> log_writable s \<longrightarrow>
      fst (predict_churn clk c s) =
        Ok200 \<lparr>churn_prediction = (if y = 1 then ''Will Churn'' else ''Will Not Churn''),
               churn_probability = round4 p,
               confidence = confidence_level p,
               recommendation =
                 (if 7 / 10 < p then ''High churn risk! Contact customer immediately with retention offer.''
                  else if 5 / 10 < p then ''Moderate risk. Monitor customer satisfaction and engagement.''
                  else ''Low risk. Customer likely to stay. Focus on upselling opportunities.''),
               timestamp = t_response clk\<rparr>)"
  (is "(?A \<longrightarrow> ?B) \<and> ?P")
proof -
  have 1: ?B if a: ?A
  proof -
    from predict_churn_success[OF a] obtain m xs y p where
      h: "model s = Some m" "select_columns c (feature_names m) = Inr xs"
         "predict m xs = Inr y" "predict_proba m xs = Inr p"
      and r: "r = \<lparr>churn_prediction = churn_label y, churn_probability = round4 p,
                   confidence = confidence_level p, recommendation = recommendation_for p,
                   timestamp = t_response clk\<rparr>"
      by blast
    have "(churn_prediction r = ''Will Churn'' \<longleftrightarrow> y = 1) \<and>
          (churn_prediction r = ''Will Not Churn'' \<longleftrightarrow> y \<noteq> 1)"
      unfolding r churn_label_def by simp
    moreover have "churn_probability r = round4 p" unfolding r by simp
    moreover have "\<exists>k::int. churn_probability r = of_int k / 10000"
      unfolding r using round4_grid by simp
    moreover have "\<bar>churn_probability r - p\<bar> \<le> 1 / 20000"
      unfolding r using round4_near by simp
    moreover have "(7 / 10 < p \<longrightarrow> recommendation r =
                ''High churn risk! Contact customer immediately with retention offer.'') \<and>
             (5 / 10 < p \<and> p \<le> 7 / 10 \<longrightarrow> recommendation r =
                ''Moderate risk. Monitor customer satisfaction and engagement.'') \<and>
             (p \<le> 5 / 10 \<longrightarrow> recommendation r =
                ''Low risk. Customer likely to stay. Focus on upselling opportunities.'')"
      unfolding r recommendation_for_def by simp
    ultimately show ?thesis using h by blast
  qed
  have 2: ?P
  proof (intro allI impI)
    fix m xs y p
    assume "model s = Some m \<and> select_columns c (feature_names m) = Inr xs \<and>
        predict m xs = Inr y \<and> predict_proba m xs = Inr p \<and> log_writable s"
    then have "fst (predict_churn clk c s) =
           Ok200 \<lparr>churn_prediction = churn_label y, churn_probability = round4 p,
                  confidence = confidence_level p, recommendation = recommendation_for p,
                  timestamp = t_response clk\<rparr>"
      by (intro predict_churn_ok(1)[where m = m and xs = xs]) simp_all
    then show "fst (predict_churn clk c s) =
        Ok200 \<lparr>churn_prediction = (if y = 1 then ''Will Churn'' else ''Will Not Churn''),
               churn_probability = round4 p,
               confidence = confidence_level p,
               recommendation =
                 (if 7 / 10 < p then ''High churn risk! Contact customer immediately with retention offer.''
                  else if 5 / 10 < p then ''Moderate risk. Monitor customer satisfaction and engagement.''
                  else ''Low risk. Customer likely to stay. Focus on upselling opportunities.''),
               timestamp = t_response clk\<rparr>"
      unfolding churn_label_def recommendation_for_def .
  qed
  from 1 2 show ?thesis by (intro conjI impI)
qed

theorem response_fields_witness:
  "fst (predict_churn example_clock example_customer (example_server (Some churner) True)) =
     Ok200 \<lparr>churn_prediction = ''Will Churn'', churn_probability = 4 / 5, confidence = ''High'',
            recommendation = ''High churn risk! Contact customer immediately with retention offer.'',
            timestamp = 1 / 50\<rparr> \<and>
   fst (predict_churn example_clock example_customer (example_server (Some contrary) True)) =
     Ok200 \<lparr>churn_prediction = ''Will Churn'', churn_probability = 1 / 5, confidence = ''High'',
            recommendation = ''Low risk. Customer likely to stay. Focus on upselling opportunities.'',
            timestamp = 1 / 50\<rparr> \<and>
   (\<exists>m xs. model (example_server (Some churner) True) = Some m \<and>
      select_columns example_customer (feature_names m) = Inr xs \<and>
      predict m xs = Inr 1 \<and> predict_proba m xs = Inr (4 / 5))"
proof -
  let ?S = "example_server (Some churner) True"
  let ?T = "example_server (Some contrary) True"
  have m: "model ?S = Some churner" "log_writable ?S" "model ?T = Some contrary" "log_writable ?T"
    by (simp_all add: example_server_def)
  have a: "fst (predict_churn example_clock example_customer ?S) =
     Ok200 \<lparr>churn_prediction = ''Will Churn'', churn_probability = 4 / 5, confidence = ''High'',
            recommendation = ''High churn risk! Contact customer immediately with retention offer.'',
            timestamp = 1 / 50\<rparr>"
    using response_fields[of example_clock example_customer ?S, THEN conjunct2,
        THEN spec, of churner, THEN spec, of "[IntV 0, IntV 12, FloatV 70, IntV 1, IntV 1]",
        THEN spec, of 1, THEN spec, of "4 / 5"] m churner_run
    by (simp add: round4_example confidence_level_def example_clock_def)
  have b: "fst (predict_churn example_clock example_customer ?T) =
     Ok200 \<lparr>churn_prediction = ''Will Churn'', churn_probability = 1 / 5, confidence = ''High'',
            recommendation = ''Low risk. Customer likely to stay. Focus on upselling opportunities.'',
            timestamp = 1 / 50\<rparr>"
    using response_fields[of example_clock example_customer ?T, THEN conjunct2,
        THEN spec, of contrary, THEN spec, of "[IntV 0, IntV 12, FloatV 70, IntV 1, IntV 1]",
        THEN spec, of 1, THEN spec, of "1 / 5"] m contrary_run
    by (simp add: round4_example confidence_level_def example_clock_def)
  have e: "predict_churn example_clock example_customer ?S =
     (Ok200 \<lparr>churn_prediction = ''Will Churn'', churn_probability = 4 / 5, confidence = ''High'',
            recommendation = ''High churn risk! Contact customer immediately with retention offer.'',
            timestamp = 1 / 50\<rparr>, snd (predict_churn example_clock example_customer ?S))"
    using a by (simp add: prod_eq_iff)
  from response_fields[THEN conjunct1, THEN mp, OF e] obtain m' xs y p where
    "model ?S = Some m'" "select_columns example_customer (feature_names m') = Inr xs"
    "predict m' xs = Inr y" "predict_proba m' xs = Inr p" by blast
  moreover from this have "m' = churner" by (simp add: example_server_def)
  ultimately have "\<exists>m xs. model ?S = Some m \<and>
      select_columns example_customer (feature_names m) = Inr xs \<and>
      predict m xs = Inr 1 \<and> predict_proba m xs = Inr (4 / 5)"
    using churner_run by auto
  with a b show ?thesis by (intro conjI)
qed

section \<open>The error path of \<^verbatim>\<open>/predict\<close>\<close>

text \<open>
  C9. The call of the logger that the source has after the \<^verbatim>\<open>raise\<close> of the
  exception handler is never executed: whenever \<^verbatim>\<open>/predict\<close> answers with an error (a
  validation error or a server error), the log file is what it was before the request, so
  no row with status \<open>error\<close> has been appended.
\<close>

theorem error_path_appends_nothing:
  assumes "post_predict iof clk body s = (resp, s')" "\<forall>r. resp \<noteq> Ok200 r"
  shows "log_file s' = log_file s"
proof (cases "parse_CustomerData iof body")
  case (Inl errors)
  with assms(1) show ?thesis unfolding post_predict_def by simp
next
  case (Inr c)
  with assms(1) have "predict_churn clk c s = (resp, s')" unfolding post_predict_def by simp
  then show ?thesis using assms(2) by (rule predict_churn_error_log)
qed

lemma picky_run:
  "select_columns example_customer (feature_names picky) = Inr [IntV 0, IntV 12, FloatV 70, IntV 1, IntV 1]"
  "predict picky [IntV 0, IntV 12, FloatV 70, IntV 1, IntV 1] = Inl (ModelError ''unseen tenure'')"
  using ex_model_sel unfolding picky_def example_model_def by simp_all

lemma predict_churn_predict_fails:
  assumes "model s = Some m" "select_columns c (feature_names m) = Inr xs" "predict m xs = Inl e"
  shows "predict_churn clk c s = (Err500 (PredictionError e), s\<lparr>model_calls := model_calls s + 1\<rparr>)"
  using assms unfolding predict_churn_def Let_def by simp

lemma picky_post:
  "post_predict strict_int example_clock example_body (example_server (Some picky) True) =
     (Err500 (PredictionError (ModelError ''unseen tenure'')),
      (example_server (Some picky) True)\<lparr>model_calls := 1\<rparr>)"
proof -
  have m: "model (example_server (Some picky) True) = Some picky"
    by (simp add: example_server_def)
  have "post_predict strict_int example_clock example_body (example_server (Some picky) True) =
        predict_churn example_clock example_customer (example_server (Some picky) True)"
    unfolding post_predict_def parse_example by simp
  also have "\<dots> = (Err500 (PredictionError (ModelError ''unseen tenure'')),
      (example_server (Some picky) True)\<lparr>model_calls := model_calls (example_server (Some picky) True) + 1\<rparr>)"
    using m picky_run by (rule predict_churn_predict_fails)
  also have "(example_server (Some picky) True)\<lparr>model_calls := model_calls (example_server (Some picky) True) + 1\<rparr>
      = (example_server (Some picky) True)\<lparr>model_calls := 1\<rparr>"
    by (simp add: example_server_def)
  finally show ?thesis .
qed

theorem error_path_appends_nothing_witness:
  "post_predict strict_int example_clock example_body (example_server (Some picky) True) =
     (Err500 (PredictionError (ModelError ''unseen tenure'')),
      (example_server (Some picky) True)\<lparr>model_calls := 1\<rparr>) \<and>
   log_file ((example_server (Some picky) True)\<lparr>model_calls := 1\<rparr>) = []"
  using error_path_appends_nothing[OF picky_post] picky_post
  by (simp add: example_server_def)

section \<open>A failing append to the audit log\<close>

text \<open>
  C6, as amended. When the model is loaded and inference succeeds for the request, a
  failure of the append to the audit log is not swallowed: the logger is called inside the
  \<^verbatim>\<open>try\<close> block, its exception is caught by the handler of the block, and the caller gets
  the server error \<open>500\<close> "Prediction error" instead of the prediction. The successful
  response is returned when the log file can be written.
\<close>

theorem log_failure_is_server_error:
  assumes "model s = Some m" "select_columns c (feature_names m) = Inr xs"
    "predict m xs = Inr y" "predict_proba m xs = Inr p"
  shows "(\<not> log_writable s \<longrightarrow>
            predict_churn clk c s =
              (Err500 (PredictionError OSError), s\<lparr>model_calls := model_calls s + 2\<rparr>)) \<and>
         (log_writable s \<longrightarrow>
            fst (predict_churn clk c s) =
              Ok200 \<lparr>churn_prediction = churn_label y, churn_probability = round4 p,
                     confidence = confidence_level p, recommendation = recommendation_for p,
                     timestamp = t_response clk\<rparr>)"
proof (intro conjI impI)
  assume "\<not> log_writable s"
  then have "\<not> log_writable (s\<lparr>model_calls := model_calls s + 2\<rparr>)" by simp
  from log_prediction_readonly[OF this] show "predict_churn clk c s =
              (Err500 (PredictionError OSError), s\<lparr>model_calls := model_calls s + 2\<rparr>)"
    unfolding predict_churn_run[OF assms] by simp
next
  assume "log_writable s"
  then have "log_writable (s\<lparr>model_calls := model_calls s + 2\<rparr>)" by simp
  from log_prediction_writable[OF this]
  obtain s' where "log_prediction (t_row clk) c
             [(''churn_prediction'', EllipsisC), (''churn_probability'', EllipsisC)]
             ''success'' (t_logged clk - t_start clk) (s\<lparr>model_calls := model_calls s + 2\<rparr>) = Inr s'"
    by blast
  then show "fst (predict_churn clk c s) =
              Ok200 \<lparr>churn_prediction = churn_label y, churn_probability = round4 p,
                     confidence = confidence_level p, recommendation = recommendation_for p,
                     timestamp = t_response clk\<rparr>"
    unfolding predict_churn_run[OF assms] by simp
qed

text \<open>
  The claim as stated fails on the example request with a log file that cannot be opened:
  the model is loaded, columns are selected, both scoring calls succeed, the logger raises,
  and the response is the server error.
\<close>

theorem log_failure_counterexample:
  "model (example_server (Some churner) False) = Some churner \<and>
   select_columns example_customer (feature_names churner)
     = Inr [IntV 0, IntV 12, FloatV 70, IntV 1, IntV 1] \<and>
   predict churner [IntV 0, IntV 12, FloatV 70, IntV 1, IntV 1] = Inr 1 \<and>
   predict_proba churner [IntV 0, IntV 12, FloatV 70, IntV 1, IntV 1] = Inr (4 / 5) \<and>
   log_prediction (1 / 100) example_customer
     [(''churn_prediction'', EllipsisC), (''churn_probability'', EllipsisC)] ''success'' (1 / 100)
     ((example_server (Some churner) False)\<lparr>model_calls := 2\<rparr>) = Inl OSError \<and>
   predict_churn example_clock example_customer (example_server (Some churner) False) =
     (Err500 (PredictionError OSError), (example_server (Some churner) False)\<lparr>model_calls := 2\<rparr>)"
proof -
  have m: "model (example_server (Some churner) False) = Some churner"
    by (simp add: example_server_def)
  have l: "log_prediction now example_customer
     [(''churn_prediction'', EllipsisC), (''churn_probability'', EllipsisC)] ''success'' dt
     ((example_server (Some churner) False)\<lparr>model_calls := 2\<rparr>) = Inl OSError" for now dt
    by (rule log_prediction_readonly) (simp add: example_server_def)
  have "predict_churn example_clock example_customer (example_server (Some churner) False) =
     (Err500 (PredictionError OSError), (example_server (Some churner) False)\<lparr>model_calls := 2\<rparr>)"
    unfolding predict_churn_run[OF m churner_run]
    by (simp add: example_server_def log_prediction_readonly)
  then show ?thesis using m l churner_run by simp
qed

theorem log_failure_is_server_error_witness:
  "predict_churn example_clock example_customer (example_server (Some churner) False) =
     (Err500 (PredictionError OSError), (example_server (Some churner) False)\<lparr>model_calls := 2\<rparr>) \<and>
   fst (predict_churn example_clock example_customer (example_server (Some churner) True)) =
     Ok200 \<lparr>churn_prediction = ''Will Churn'', churn_probability = 4 / 5, confidence = ''High'',
            recommendation = ''High churn risk! Contact customer immediately with retention offer.'',
            timestamp = 1 / 50\<rparr>"
proof -
  have m: "model (example_server (Some churner) w) = Some churner" for w
    by (simp add: example_server_def)
  show ?thesis
    using log_failure_is_server_error[OF m[of False] churner_run, where clk = example_clock]
      log_failure_is_server_error[OF m[of True] churner_run, where clk = example_clock]
    by (simp add: example_server_def churn_label_def round4_example confidence_level_def
        recommendation_for_def example_clock_def)
qed

section \<open>Batch prediction\<close>

text \<open>
  C3, as amended. When a model is loaded, the batch handler answers a list of \<open>N\<close>
  records with exactly \<open>N\<close> slots and the count \<open>N\<close>; slot \<open>i\<close> is what the body of
  the loop gives for record \<open>i\<close> alone, a prediction or the error raised for that
  record, so a failing record neither ends the loop nor removes a slot. When no model is
  loaded the handler raises the server error \<open>500\<close> "Model not loaded" before the loop:
  the answer has no slot, whatever the list is, and the state is unchanged.
\<close>

theorem batch_keeps_every_slot:
  "(\<forall>m. model s = Some m \<longrightarrow>
      (\<exists>results s'. predict_batch customers s = (BatchOk results (length customers), s') \<and>
           length results = length customers \<and>
           (\<forall>i<length customers. results ! i = fst (batch_item m (customers ! i))) \<and>
           (\<forall>i<length customers. (\<exists>label p. results ! i = Prediction label p) \<or>
                                   (\<exists>e. results ! i = SlotError e)))) \<and>
   (model s = None \<longrightarrow> predict_batch customers s = (Batch500 ModelNotLoaded, s))"
proof (intro conjI allI impI)
  fix m assume m: "model s = Some m"
  let ?results = "map (\<lambda>c. fst (batch_item m c)) customers"
  have "\<forall>i<length customers. (\<exists>label p. ?results ! i = Prediction label p) \<or>
                                   (\<exists>e. ?results ! i = SlotError e)"
    by (metis slot.exhaust)
  with predict_batch_loaded[OF m, of customers]
  show "\<exists>results s'. predict_batch customers s = (BatchOk results (length customers), s') \<and>
           length results = length customers \<and>
           (\<forall>i<length customers. results ! i = fst (batch_item m (customers ! i))) \<and>
           (\<forall>i<length customers. (\<exists>label p. results ! i = Prediction label p) \<or>
                                   (\<exists>e. results ! i = SlotError e))"
    by auto
next
  assume "model s = None"
  then show "predict_batch customers s = (Batch500 ModelNotLoaded, s)"
    unfolding predict_batch_def by simp
qed

lemma batch_item_picky:
  "batch_item picky example_customer = (SlotError (ModelError ''unseen tenure''), 1)"
  unfolding batch_item_def Let_def by (simp add: picky_run)

lemma second_sel:
  "select_columns second_customer (feature_names picky) = Inr [IntV 0, IntV 48, FloatV 70, IntV 1, IntV 1]"
  unfolding select_columns_def second_customer_def example_customer_def picky_def example_model_def
    example_features_def CustomerData_def Field_def
  by simp

lemma batch_item_picky2:
  "batch_item picky second_customer = (Prediction ''Will Not Churn'' (1 / 5), 2)"
  unfolding batch_item_def Let_def second_sel
  by (simp add: picky_def example_model_def churn_label_def round4_example)

theorem batch_keeps_every_slot_witness:
  "fst (predict_batch [example_customer, second_customer] (example_server (Some picky) True)) =
     BatchOk [SlotError (ModelError ''unseen tenure''), Prediction ''Will Not Churn'' (1 / 5)] 2 \<and>
   predict_batch [example_customer, second_customer] (example_server None False) =
     (Batch500 ModelNotLoaded, example_server None False)"
proof -
  have m: "model (example_server (Some picky) True) = Some picky"
    by (simp add: example_server_def)
  from batch_keeps_every_slot[of "example_server (Some picky) True"
      "[example_customer, second_customer]", THEN conjunct1, THEN spec, of picky, THEN mp, OF m]
  obtain results s' where
    r: "predict_batch [example_customer, second_customer] (example_server (Some picky) True)
          = (BatchOk results 2, s')" "length results = 2"
       "results ! 0 = fst (batch_item picky example_customer)"
       "results ! 1 = fst (batch_item picky second_customer)"
    by auto
  have "results = [results ! 0, results ! 1]"
    using r(2) by (cases results; cases "tl results") auto
  then have a: "fst (predict_batch [example_customer, second_customer]
                  (example_server (Some picky) True)) =
     BatchOk [SlotError (ModelError ''unseen tenure''), Prediction ''Will Not Churn'' (1 / 5)] 2"
    using r by (simp add: batch_item_picky batch_item_picky2)
  have n: "model (example_server None False) = None" by (simp add: example_server_def)
  from batch_keeps_every_slot[of "example_server None False"
      "[example_customer, second_customer]", THEN conjunct2, THEN mp, OF n]
  have b: "predict_batch [example_customer, second_customer] (example_server None False) =
     (Batch500 ModelNotLoaded, example_server None False)" .
  from a b show ?thesis by (rule conjI)
qed

text \<open>
  The claim as stated fails when no model is loaded: the guard at the head of the handler
  raises, and the answer to a batch of one record is a server error without any slot.
\<close>

theorem batch_unloaded_counterexample:
  "predict_batch [example_customer] (example_server None True) =
     (Batch500 ModelNotLoaded, example_server None True)"
  unfolding predict_batch_def by (simp add: example_server_def)

section \<open>Startup\<close>

text \<open>
  C8, as amended. At startup the model is loaded from the first candidate of the hardcoded
  list that exists and loads without an exception; an existing candidate whose load raises
  is skipped. Startup raises exactly when no candidate exists and loads. All three
  candidates end in \<^verbatim>\<open>.joblib\<close>, so each is loaded with \<^verbatim>\<open>joblib.load\<close>. The
  handlers never assign the global model.
\<close>

theorem startup_loads_first_loadable:
  "(load_model_at_startup fs s = Inr s' \<longleftrightarrow>
      (\<exists>pre p post m. model_paths = pre @ p # post \<and>
         (\<forall>q\<in>set pre. \<not> (path_exists fs q \<and> (\<exists>m'. joblib_load fs q = Inr m'))) \<and>
         path_exists fs p \<and> joblib_load fs p = Inr m \<and> s' = s\<lparr>model := Some m\<rparr>)) \<and>
   ((\<exists>e. load_model_at_startup fs s = Inl e) \<longleftrightarrow>
      (\<forall>p\<in>set model_paths. \<not> (path_exists fs p \<and> (\<exists>m. joblib_load fs p = Inr m)))) \<and>
   model (snd (predict_churn clk c s)) = model s \<and>
   model (snd (predict_batch cs s)) = model s"
proof (intro conjI)
  show "load_model_at_startup fs s = Inr s' \<longleftrightarrow>
      (\<exists>pre p post m. model_paths = pre @ p # post \<and>
         (\<forall>q\<in>set pre. \<not> (path_exists fs q \<and> (\<exists>m'. joblib_load fs q = Inr m'))) \<and>
         path_exists fs p \<and> joblib_load fs p = Inr m \<and> s' = s\<lparr>model := Some m\<rparr>)"
    (is "?L \<longleftrightarrow> ?R")
  proof
    assume ?L
    then obtain m where m: "load_loop fs model_paths = Some m" "s' = s\<lparr>model := Some m\<rparr>"
      unfolding load_model_at_startup_def by (auto split: option.splits)
    from load_loop_Some[OF model_paths_joblib m(1)] m(2) show ?R by blast
  next
    assume ?R
    then obtain pre p post m where d: "model_paths = pre @ p # post"
      "\<forall>q\<in>set pre. \<not> (path_exists fs q \<and> (\<exists>m'. joblib_load fs q = Inr m'))"
      "path_exists fs p" "joblib_load fs p = Inr m" "s' = s\<lparr>model := Some m\<rparr>" by blast
    have j: "\<forall>q\<in>set pre. endswith q ''.joblib''" "endswith p ''.joblib''"
      using model_paths_joblib unfolding d(1) by auto
    have "load_loop fs model_paths = load_loop fs (p # post)"
      unfolding d(1) using j(1) d(2) by (rule load_loop_skip)
    also have "\<dots> = Some m" using d(3,4) j(2) by simp
    finally show ?L unfolding load_model_at_startup_def using d(5) by simp
  qed
  show "(\<exists>e. load_model_at_startup fs s = Inl e) \<longleftrightarrow>
      (\<forall>p\<in>set model_paths. \<not> (path_exists fs p \<and> (\<exists>m. joblib_load fs p = Inr m)))"
    using load_loop_None[OF model_paths_joblib, of fs]
    unfolding load_model_at_startup_def by (auto split: option.splits)
  show "model (snd (predict_churn clk c s)) = model s" by (rule predict_churn_model)
  show "model (snd (predict_batch cs s)) = model s" by (rule predict_batch_model)
qed

lemma example_fs_facts:
  "path_exists example_fs (model_paths ! 0)"
  "joblib_load example_fs (model_paths ! 0) = Inl (Exception ''corrupt file'')"
  "path_exists example_fs (model_paths ! 1)"
  "joblib_load example_fs (model_paths ! 1) = Inr churner"
  unfolding example_fs_def model_paths_def by simp_all

lemma model_paths_split: "model_paths = [model_paths ! 0] @ model_paths ! 1 # [model_paths ! 2]"
  unfolding model_paths_def by simp

text \<open>
  The claim as stated fails when the first existing candidate cannot be loaded: here the
  first two candidates exist, loading the first raises, and the model of the service is the
  one loaded from the second.
\<close>

theorem startup_first_existing_counterexample:
  "path_exists example_fs (model_paths ! 0) \<and>
   joblib_load example_fs (model_paths ! 0) = Inl (Exception ''corrupt file'') \<and>
   joblib_load example_fs (model_paths ! 1) = Inr churner \<and>
   load_model_at_startup example_fs (example_server None True) = Inr (example_server (Some churner) True)"
proof -
  have "load_loop example_fs model_paths = Some churner"
    apply (subst model_paths_split)
    using example_fs_facts model_paths_joblib
    by (simp add: nth_mem model_paths_def[THEN arg_cong, of length])
  then show ?thesis using example_fs_facts
    unfolding load_model_at_startup_def by (simp add: example_server_def)
qed

theorem startup_loads_first_loadable_witness:
  "load_model_at_startup example_fs (example_server None True) =
     Inr ((example_server None True)\<lparr>model := Some churner\<rparr>)"
proof -
  have "\<exists>pre p post m. model_paths = pre @ p # post \<and>
         (\<forall>q\<in>set pre. \<not> (path_exists example_fs q \<and> (\<exists>m'. joblib_load example_fs q = Inr m'))) \<and>
         path_exists example_fs p \<and> joblib_load example_fs p = Inr m \<and>
         (example_server None True)\<lparr>model := Some churner\<rparr> = (example_server None True)\<lparr>model := Some m\<rparr>"
    apply (rule exI[of _ "[model_paths ! 0]"])
    apply (rule exI[of _ "model_paths ! 1"])
    apply (rule exI[of _ "[model_paths ! 2]"])
    apply (rule exI[of _ churner])
    using example_fs_facts model_paths_split by simp
  then show ?thesis
    using startup_loads_first_loadable[of example_fs "example_server None True"
        "(example_server None True)\<lparr>model := Some churner\<rparr>"]
    by blast
qed

section \<open>The canonical feature order\<close>

text \<open>
  C1, as amended. For every valid request and every model with a list of feature names:
  when every feature name is a declared field of \<^verbatim>\<open>CustomerData\<close>, the canonicalization
  step of the handlers gives a sequence as long as the list, whose element \<open>i\<close> is the
  value of the field named by feature \<open>i\<close>: the value sent for it, converted to the type
  of the field, or the default \<open>0\<close> when the request has no such member; declared fields
  that are no feature of the model are left out. When some feature name is no declared
  field, nothing is filled in for it: the step raises \<^verbatim>\<open>KeyError\<close> with the undeclared
  names, \<^verbatim>\<open>/predict\<close> answers the request with the server error \<open>500\<close> and leaves the
  state as it was, and the batch handler puts the error into the slot of the record. In
  both cases, sending the members in another order gives the same instance, and so do
  members that are no declared field.
\<close>

theorem canonical_order:
  assumes "parse_CustomerData iof body = Inr c" "feature_names m = Some ns"
  shows "(set ns \<subseteq> fname ` set CustomerData \<longrightarrow>
       (\<exists>xs. select_columns c (feature_names m) = Inr xs \<and> length xs = length ns \<and>
          (\<forall>i<length ns. \<exists>f\<in>set CustomerData. fname f = ns ! i \<and>
             (case json_object body (ns ! i) of
                None \<Rightarrow> xs ! i = IntV 0
              | Some v \<Rightarrow> coerce iof (ftype f) v = Some (xs ! i))))) \<and>
     (\<not> set ns \<subseteq> fname ` set CustomerData \<longrightarrow>
       (\<exists>missing. missing = filter (\<lambda>n. n \<notin> fname ` set CustomerData) ns \<and> missing \<noteq> [] \<and>
          select_columns c (feature_names m) = Inl (KeyError missing) \<and>
          (\<forall>clk s. model s = Some m \<longrightarrow>
             post_predict iof clk body s = (Err500 (PredictionError (KeyError missing)), s)) \<and>
          batch_item m c = (SlotError (KeyError missing), 0) \<and>
          (\<forall>cs s i. model s = Some m \<and> i < length cs \<and> cs ! i = c \<longrightarrow>
             (\<exists>results s'. predict_batch cs s = (BatchOk results (length cs), s') \<and>
                 results ! i = SlotError (KeyError missing))))) \<and>
     (\<forall>body'. mset body' = mset body \<and> distinct (map fst body) \<longrightarrow>
         parse_CustomerData iof body' = Inr c) \<and>
     (\<forall>body'. (\<forall>f\<in>set CustomerData. json_object body' (fname f) = json_object body (fname f)) \<longrightarrow>
         parse_CustomerData iof body' = Inr c)"
  (is "(?G1 \<longrightarrow> ?G2) \<and> (\<not> ?G1 \<longrightarrow> ?N2) \<and> ?P \<and> ?E")
proof -
  have look: "\<exists>v. validate_field iof (json_object body) f = Inr v \<and> map_of c (fname f) = Some v"
    if "f \<in> set CustomerData" for f
    using parse_success(2)[OF assms(1) that] .
  have good: ?G2 if sub: ?G1
  proof -
    let ?xs = "map (\<lambda>n. the (map_of c n)) ns"
    have "\<forall>n\<in>set ns. map_of c n \<noteq> None"
    proof
      fix n assume "n \<in> set ns"
      then obtain f where "f \<in> set CustomerData" "fname f = n" using sub by auto
      with look[of f] show "map_of c n \<noteq> None" by auto
    qed
    then have sel: "select_columns c (feature_names m) = Inr ?xs"
      unfolding assms(2) by (rule select_columns_ok)
    have al: "\<exists>f\<in>set CustomerData. fname f = ns ! i \<and>
           (case json_object body (ns ! i) of
              None \<Rightarrow> ?xs ! i = IntV 0
            | Some v \<Rightarrow> coerce iof (ftype f) v = Some (?xs ! i))" if "i < length ns" for i
    proof -
      from that have "ns ! i \<in> set ns" by simp
      then obtain f where f: "f \<in> set CustomerData" "fname f = ns ! i" using sub by auto
      from look[OF f(1)] obtain v where
        v: "validate_field iof (json_object body) f = Inr v" "map_of c (fname f) = Some v" by blast
      have x: "?xs ! i = v" using that v(2) f(2) by simp
      have "case json_object body (fname f) of None \<Rightarrow> v = IntV 0
            | Some w \<Rightarrow> coerce iof (ftype f) w = Some v"
        using validate_field_value[OF v(1)] defaults_zero[OF f(1)]
        by (auto split: option.splits)
      then show ?thesis using f x by auto
    qed
    show ?thesis using sel al by (intro exI[of _ ?xs]) simp
  qed
  have bad: ?N2 if nsub: "\<not> ?G1"
  proof -
    let ?missing = "filter (\<lambda>n. n \<notin> fname ` set CustomerData) ns"
    have fm: "filter (\<lambda>n. map_of c n = None) ns = ?missing"
      by (simp add: parsed_lookup_None[OF assms(1)])
    have ne: "?missing \<noteq> []" using nsub by (auto simp: filter_empty_conv)
    have "filter (\<lambda>n. map_of c n = None) ns \<noteq> []" unfolding fm by (rule ne)
    from select_columns_KeyError[OF this]
    have sel: "select_columns c (feature_names m) = Inl (KeyError ?missing)"
      unfolding assms(2) fm .
    have pp: "\<forall>clk s. model s = Some m \<longrightarrow>
             post_predict iof clk body s = (Err500 (PredictionError (KeyError ?missing)), s)"
    proof (intro allI impI)
      fix clk :: clock and s :: server
      assume "model s = Some m"
      from predict_churn_select_fails[OF this sel, of clk]
      show "post_predict iof clk body s = (Err500 (PredictionError (KeyError ?missing)), s)"
        unfolding post_predict_def assms(1) by simp
    qed
    have bi: "batch_item m c = (SlotError (KeyError ?missing), 0)"
      using sel by (rule batch_item_select_fails)
    have pb: "\<forall>cs s i. model s = Some m \<and> i < length cs \<and> cs ! i = c \<longrightarrow>
             (\<exists>results s'. predict_batch cs s = (BatchOk results (length cs), s') \<and>
                 results ! i = SlotError (KeyError ?missing))"
    proof (intro allI impI)
      fix cs :: "number dict list" and s :: server and i :: nat
      assume h: "model s = Some m \<and> i < length cs \<and> cs ! i = c"
      then have "map (\<lambda>c. fst (batch_item m c)) cs ! i = SlotError (KeyError ?missing)"
        using bi by auto
      with predict_batch_loaded[of s m cs] h
      show "\<exists>results s'. predict_batch cs s = (BatchOk results (length cs), s') \<and>
                 results ! i = SlotError (KeyError ?missing)"
        by blast
    qed
    show ?thesis using ne sel pp bi pb by blast
  qed
  have perm: "parse_CustomerData iof body' = Inr c"
    if "mset body' = mset body \<and> distinct (map fst body)" for body'
    using json_object_perm[of body' body] that assms(1)
    by (simp add: parse_CustomerData_def)
  have extra: "parse_CustomerData iof body' = Inr c"
    if "\<forall>f\<in>set CustomerData. json_object body' (fname f) = json_object body (fname f)" for body'
    using parse_cong[OF that, of iof] assms(1) by simp
  show ?thesis
  proof (intro conjI impI)
    assume ?G1 then show ?G2 by (rule good)
  next
    assume "\<not> ?G1" then show ?N2 by (rule bad)
  next
    show ?P using perm by blast
  next
    show ?E using extra by blast
  qed
qed

lemma example_features_declared: "set example_features \<subseteq> fname ` set CustomerData"
  unfolding example_features_def CustomerData_def Field_def by simp

lemma example_body_distinct: "distinct (map fst example_body)"
  unfolding example_body_def by simp

lemma headerless_undeclared:
  "\<not> set [''1'', ''2'', ''3''] \<subseteq> fname ` set CustomerData"
  "filter (\<lambda>n. n \<notin> fname ` set CustomerData) [''1'', ''2'', ''3''] = [''1'', ''2'', ''3'']"
  unfolding CustomerData_def Field_def by simp_all

theorem canonical_order_witness:
  "parse_CustomerData strict_int example_body = Inr example_customer \<and>
   feature_names churner = Some example_features \<and>
   set example_features \<subseteq> fname ` set CustomerData \<and>
   select_columns example_customer (feature_names churner)
     = Inr [IntV 0, IntV 12, FloatV 70, IntV 1, IntV 1] \<and>
   parse_CustomerData strict_int (rev example_body) = Inr example_customer \<and>
   parse_CustomerData strict_int (example_body @ [(''customerID'', IntV 7)]) = Inr example_customer \<and>
   \<not> set [''1'', ''2'', ''3''] \<subseteq> fname ` set CustomerData \<and>
   select_columns example_customer (feature_names headerless) = Inl (KeyError [''1'', ''2'', ''3'']) \<and>
   batch_item headerless example_customer = (SlotError (KeyError [''1'', ''2'', ''3'']), 0)"
proof -
  have n: "feature_names churner = Some example_features"
    by (simp add: churner_def example_model_def)
  note t = canonical_order[OF parse_example n]
  from t have p: "\<forall>body'. mset body' = mset example_body \<and> distinct (map fst example_body) \<longrightarrow>
         parse_CustomerData strict_int body' = Inr example_customer"
    and e: "\<forall>body'. (\<forall>f\<in>set CustomerData. json_object body' (fname f) = json_object example_body (fname f)) \<longrightarrow>
         parse_CustomerData strict_int body' = Inr example_customer"
    by blast+
  have 1: "parse_CustomerData strict_int (rev example_body) = Inr example_customer"
    using p example_body_distinct by simp
  have "\<forall>f\<in>set CustomerData. fname f \<noteq> ''customerID''"
    unfolding CustomerData_def Field_def by simp
  then have "\<forall>f\<in>set CustomerData.
      json_object (example_body @ [(''customerID'', IntV 7)]) (fname f) = json_object example_body (fname f)"
    by (simp add: json_object_def)
  with e have 2: "parse_CustomerData strict_int (example_body @ [(''customerID'', IntV 7)]) = Inr example_customer"
    by blast
  have h: "feature_names headerless = Some [''1'', ''2'', ''3'']"
    by (simp add: headerless_def example_model_def)
  from canonical_order[OF parse_example h, THEN conjunct2, THEN conjunct1, THEN mp,
      OF headerless_undeclared(1)]
  have 3: "select_columns example_customer (feature_names headerless) = Inl (KeyError [''1'', ''2'', ''3''])"
    and 4: "batch_item headerless example_customer = (SlotError (KeyError [''1'', ''2'', ''3'']), 0)"
    unfolding headerless_undeclared(2) by blast+
  show ?thesis
    using parse_example n example_features_declared churner_run(1) 1 2 headerless_undeclared(1) 3 4
    by simp
qed

text \<open>
  The claim as stated fails for a model whose feature names are no fields of
  \<^verbatim>\<open>CustomerData\<close>, such as one fitted on a table without header: the example request is
  valid, the selection of the columns raises \<^verbatim>\<open>KeyError\<close> instead of filling the missing
  features with zero, and \<^verbatim>\<open>/predict\<close> answers with a server error.
\<close>

theorem canonical_order_counterexample:
  "parse_CustomerData strict_int example_body = Inr example_customer \<and>
   feature_names headerless = Some [''1'', ''2'', ''3''] \<and>
   select_columns example_customer (feature_names headerless) = Inl (KeyError [''1'', ''2'', ''3'']) \<and>
   post_predict strict_int example_clock example_body (example_server (Some headerless) True) =
     (Err500 (PredictionError (KeyError [''1'', ''2'', ''3''])), example_server (Some headerless) True)"
proof -
  have n: "feature_names headerless = Some [''1'', ''2'', ''3'']"
    by (simp add: headerless_def example_model_def)
  have s: "select_columns example_customer (feature_names headerless) = Inl (KeyError [''1'', ''2'', ''3''])"
    unfolding n select_columns_def example_customer_def CustomerData_def Field_def by simp
  have "post_predict strict_int example_clock example_body (example_server (Some headerless) True) =
     (Err500 (PredictionError (KeyError [''1'', ''2'', ''3''])), example_server (Some headerless) True)"
    unfolding post_predict_def parse_example predict_churn_def Let_def
    by (simp add: example_server_def s)
  then show ?thesis using parse_example n s by simp
qed

section \<open>Validation\<close>










section \<open>The row of the audit log\<close>

lemma dict_set_chain:
  assumes "distinct ks" "set ks \<inter> set (map fst d) = {}" "length ks = length vs"
  shows "foldl (\<lambda>d (k, v). dict_set d k v) d (zip ks vs) = d @ zip ks vs"
  using assms
proof (induction ks arbitrary: d vs)
  case Nil
  then show ?case by simp
next
  case (Cons k ks)
  then obtain v vs' where vs: "vs = v # vs'" by (cases vs) auto
  have 1: "dict_set d k v = d @ [(k, v)]" using Cons.prems(2) by (simp add: dict_set_def)
  have 2: "set ks \<inter> set (map fst (d @ [(k, v)])) = {}" using Cons.prems(1,2) by auto
  have "foldl (\<lambda>d (k, v). dict_set d k v) (d @ [(k, v)]) (zip ks vs') = (d @ [(k, v)]) @ zip ks vs'"
    using Cons.prems(1,3) 2 vs by (intro Cons.IH) auto
  then show ?case unfolding vs by (simp add: 1)
qed

lemma log_prediction_row:
  assumes "log_writable s"
    and "set (map fst data) \<inter> {''prediction'', ''probability'', ''status'', ''exec_time'', ''timestamp''} = {}"
  shows "log_prediction now data [(''churn_prediction'', a), (''churn_probability'', b)] st dt s =
     Inr (s\<lparr>log_file := log_file s
            @ (if log_file s = []
               then [map StrC (map fst data @ [''prediction'', ''probability'', ''status'', ''exec_time'', ''timestamp''])]
               else [])
            @ [map (\<lambda>(k, v). NumC v) data @ [a, b, StrC st, NumC (FloatV dt), TimeC now]]\<rparr>)"
proof -
  let ?r0 = "map (\<lambda>(k, v). (k, NumC v)) data"
  have k: "map fst ?r0 = map fst data" by (induction data) auto
  have sv: "snd \<circ> (\<lambda>(k, v). (k, NumC v)) = (\<lambda>(k, v). NumC v)" by (auto simp: fun_eq_iff)
  have h: "(\<lambda>(k, v). StrC k) \<circ> (\<lambda>(k, v). (k, NumC v)) = StrC \<circ> fst"
    by (auto simp: fun_eq_iff)
  have d: "set [''prediction'', ''probability'', ''status'', ''exec_time'', ''timestamp'']
             \<inter> set (map fst ?r0) = {}"
    unfolding k using assms(2) by auto
  have "distinct [''prediction'', ''probability'', ''status'', ''exec_time'', ''timestamp'']"
    by simp
  from dict_set_chain[OF this d, of "[a, b, StrC st, NumC (FloatV dt), TimeC now]"]
  have row: "dict_set (dict_set (dict_set (dict_set (dict_set ?r0 ''prediction'' a)
               ''probability'' b) ''status'' (StrC st)) ''exec_time'' (NumC (FloatV dt)))
               ''timestamp'' (TimeC now)
             = ?r0 @ [(''prediction'', a), (''probability'', b), (''status'', StrC st),
                      (''exec_time'', NumC (FloatV dt)), (''timestamp'', TimeC now)]"
    by simp
  show ?thesis
    using assms(1) unfolding log_prediction_def Let_def
    by (simp add: row h sv)
qed

lemma customer_keys_free:
  "set (map fname CustomerData) \<inter> {''prediction'', ''probability'', ''status'', ''exec_time'', ''timestamp''} = {}"
  unfolding CustomerData_def Field_def by simp

text \<open>
  What every successful call of \<^verbatim>\<open>/predict\<close> appends: the header, when the file is
  empty, and one row with the values of the instance, the two placeholders, the status
  \<open>success\<close>, the duration and the timestamp.
\<close>

lemma success_appends_one_row:
  assumes "post_predict iof clk body s = (Ok200 r, s')"
  shows "\<exists>c. parse_CustomerData iof body = Inr c \<and>
     log_file s' = log_file s
       @ (if log_file s = []
          then [map StrC (map fname CustomerData
                  @ [''prediction'', ''probability'', ''status'', ''exec_time'', ''timestamp''])]
          else [])
       @ [map (\<lambda>(k, v). NumC v) c
            @ [EllipsisC, EllipsisC, StrC ''success'',
               NumC (FloatV (t_logged clk - t_start clk)), TimeC (t_row clk)]]"
proof -
  from assms obtain c where c: "parse_CustomerData iof body = Inr c"
    "predict_churn clk c s = (Ok200 r, s')"
    unfolding post_predict_def by (auto split: sum.splits)
  let ?s2 = "s\<lparr>model_calls := model_calls s + 2\<rparr>"
  from predict_churn_success[OF c(2)]
  have l: "log_prediction (t_row clk) c
             [(''churn_prediction'', EllipsisC), (''churn_probability'', EllipsisC)]
             ''success'' (t_logged clk - t_start clk) ?s2 = Inr s'"
    by blast
  have w: "log_writable ?s2"
  proof (rule ccontr)
    assume n: "\<not> log_writable ?s2"
    show False
      using log_prediction_readonly[OF n, where now = "t_row clk" and data = c
          and a = EllipsisC and b = EllipsisC and st = "''success''"
          and dt = "t_logged clk - t_start clk"] l
      by simp
  qed
  have k: "map fst c = map fname CustomerData" using parse_success(1)[OF c(1)] .
  have f: "set (map fst c)
             \<inter> {''prediction'', ''probability'', ''status'', ''exec_time'', ''timestamp''} = {}"
    unfolding k by (rule customer_keys_free)
  from l have "s' = ?s2\<lparr>log_file := log_file ?s2
       @ (if log_file ?s2 = []
          then [map StrC (map fst c
                  @ [''prediction'', ''probability'', ''status'', ''exec_time'', ''timestamp''])]
          else [])
       @ [map (\<lambda>(k, v). NumC v) c
            @ [EllipsisC, EllipsisC, StrC ''success'',
               NumC (FloatV (t_logged clk - t_start clk)), TimeC (t_row clk)]]\<rparr>"
    unfolding log_prediction_row[OF w f] by simp
  then show ?thesis using c(1) unfolding k by (intro exI[of _ c]) simp
qed

text \<open>
  C7. The claim says that the row appended for a successful call holds the label and the
  probability of the response. On the example request with a model that predicts churn
  with probability \<open>0.8\<close> the response says \<open>Will Churn\<close> and \<open>0.8\<close>, the file gets
  the header and one row, and the columns \<open>prediction\<close> and \<open>probability\<close> of the row
  hold the object \<^verbatim>\<open>Ellipsis\<close>: the handler passes the placeholders
  \<^verbatim>\<open>{"churn_prediction": ..., "churn_probability": ...}\<close> to the logger.
\<close>

theorem audit_row_holds_ellipsis:
  "fst (post_predict strict_int example_clock example_body (example_server (Some churner) True)) =
     Ok200 \<lparr>churn_prediction = ''Will Churn'', churn_probability = 4 / 5, confidence = ''High'',
            recommendation = ''High churn risk! Contact customer immediately with retention offer.'',
            timestamp = 1 / 50\<rparr> \<and>
   log_file (snd (post_predict strict_int example_clock example_body (example_server (Some churner) True))) =
     [map StrC (map fname CustomerData @ [''prediction'', ''probability'', ''status'', ''exec_time'', ''timestamp'']),
      map (\<lambda>(k, v). NumC v) example_customer
        @ [EllipsisC, EllipsisC, StrC ''success'', NumC (FloatV (1 / 100)), TimeC (1 / 100)]]"
proof -
  let ?S = "example_server (Some churner) True"
  have m: "model ?S = Some churner" by (simp add: example_server_def)
  have keys: "map fst example_customer = map fname CustomerData"
    using parse_success(1)[OF parse_example] .
  have w: "log_writable (?S\<lparr>model_calls := model_calls ?S + 2\<rparr>)" by (simp add: example_server_def)
  have f: "set (map fst example_customer) \<inter> {''prediction'', ''probability'', ''status'', ''exec_time'', ''timestamp''} = {}"
    unfolding keys by (rule customer_keys_free)
  have "post_predict strict_int example_clock example_body ?S =
        predict_churn example_clock example_customer ?S"
    unfolding post_predict_def parse_example by simp
  then show ?thesis
    unfolding predict_churn_run[OF m churner_run] log_prediction_row[OF w f]
    by (simp add: keys churn_label_def round4_example confidence_level_def recommendation_for_def
        example_clock_def example_server_def)
qed

end
